theory Spec2Isabelle
  imports Main
begin

section \<open>sherlock: a distributed mutex over memcached guarding a child process\<close>

text \<open>
  The development embeds \<^verbatim>\<open>src/sherlock.py\<close>. Everything the script does beyond
  computing values is explicit: the memcached store is a map, every call that leaves
  the process (store, clock, sleep, fork, exec, wait, logging) appends an event to a
  trace, an exception is a value of \<open>result\<close>, and the retry loop of \<open>acquire\<close>,
  which may run forever, is a \<^theory_text>\<open>partial_function\<close> in the option monad whose
  value \<open>None\<close> means that the call never returns.
\<close>

subsection \<open>Exceptions, log records, events\<close>

text \<open>
  The exceptions the script can see. \<open>AcquireDenied\<close> is the class of line 54 (a
  subclass of \<open>Exception\<close>); \<open>IndexError\<close> comes from \<open>args[0]\<close>; \<open>OSError\<close> from
  \<open>os.fork\<close>, \<open>os.execvp\<close> and \<open>os.waitpid\<close>; \<open>SystemExit\<close> (raised by \<open>panic\<close>
  with a string) derives from \<open>BaseException\<close> only, so \<open>except Exception\<close> does
  not catch it.
\<close>

datatype exn = AcquireDenied | IndexError | OSError | SystemExit string

fun is_Exception :: "exn \<Rightarrow> bool" where
  "is_Exception (SystemExit _) = False"
| "is_Exception _ = True"

text \<open>
  The outcome of a piece of Python code: it returns a value, raises, or (in a forked
  child, after a successful \<open>os.execvp\<close>) the process image is replaced and no
  Python code runs any more.
\<close>

datatype 'a result = Return 'a | Raise exn | Replaced "string list"

text \<open>
  Log records carry the format string's arguments instead of the formatted text.
  \<open>setup_logging\<close> sets the level to DEBUG, so every record is emitted.
\<close>

datatype level = DEBUG | ERROR

datatype msg =
    Calling string
  | Returning string
  | Using_memcache_key string
  | Retry_if_lock_is_acquired bool
  | Acquired_by_somebody_else
  | Retrying
  | Starting_process
  | Process_exited nat nat
  | Exception_raised_on_fork_exec exn
  | Text string

text \<open>
  What the process does to the outside world, in order. \<open>Add k v ok\<close> is
  \<open>cli.add(k, v)\<close> with its answer, \<open>Sleep 100\<close> is \<open>time.sleep(0.1)\<close> in
  milliseconds, \<open>Fork None\<close> a failed fork, \<open>Fork (Some pid)\<close> a successful one
  seen by the parent, and \<open>Child ev\<close> an event of the forked child process.
\<close>

datatype event =
    Get_stats
  | Add string string bool
  | Delete string
  | Sleep nat
  | Fork "nat option"
  | Execvp string "string list"
  | Waitpid nat
  | Log level msg
  | Child event

subsection \<open>The world and its oracles\<close>

type_synonym store = "string \<rightharpoonup> string"

text \<open>
  \<open>store\<close> is the content of memcached, \<open>trace\<close> the events so far, \<open>slept\<close> the
  number of \<open>time.sleep\<close> calls so far (the script's only suspension point).
\<close>

record world =
  store :: store
  trace :: "event list"
  slept :: nat

text \<open>
  What another party (a holder releasing, a contender acquiring) can do to the
  store: the same two operations this script uses, add-if-absent and delete.
\<close>

datatype store_op = Other_add string string | Other_delete string

fun apply_op :: "store_op \<Rightarrow> store \<Rightarrow> store" where
  "apply_op (Other_add k v) s = (if s k = None then s(k \<mapsto> v) else s)"
| "apply_op (Other_delete k) s = s(k := None)"

definition apply_ops :: "store_op list \<Rightarrow> store \<Rightarrow> store" where
  "apply_ops ops s = fold apply_op ops s"

text \<open>How a process ends for the operating system.\<close>

datatype proc_end = Exited nat | Killed nat bool | Runs_forever

text \<open>
  Everything the script reads from outside:
  \<^item> \<open>environ\<close>: the environment variables;
  \<^item> \<open>reachable\<close>: whether \<open>cli.get_stats()\<close> is non-empty;
  \<^item> \<open>utcnow n\<close>: the text of \<open>datetime.utcnow()\<close> after \<open>n\<close> sleeps;
  \<^item> \<open>others n\<close>: the operations that all other parties together apply to
    the store, in this order, while this process is in its \<open>n\<close>-th sleep
    (counted from 0);
  \<^item> \<open>fork_pid\<close>: \<open>None\<close> when \<open>os.fork\<close> raises, \<open>Some p\<close> when it creates a
    child, whose pid is \<open>Suc p\<close> (the parent never sees 0);
  \<^item> \<open>command args\<close>: \<open>None\<close> when \<open>os.execvp(args[0], args)\<close> raises (for
    example the command does not exist), else how the command ends;
  \<^item> \<open>waitpid_raises\<close>: whether \<open>os.waitpid\<close> raises.
  The guarded command and other parties are assumed not to touch the store while the
  child runs; other parties act during the sleeps only.
\<close>

record env =
  environ :: "string \<rightharpoonup> string"
  reachable :: bool
  utcnow :: "nat \<Rightarrow> string"
  others :: "nat \<Rightarrow> store_op list"
  fork_pid :: "nat option"
  command :: "string list \<Rightarrow> proc_end option"
  waitpid_raises :: bool

definition emit :: "event \<Rightarrow> world \<Rightarrow> world" where
  "emit ev w = w\<lparr>trace := trace w @ [ev]\<rparr>"

definition log :: "level \<Rightarrow> msg \<Rightarrow> world \<Rightarrow> world" where
  "log l m w = emit (Log l m) w"

subsection \<open>Lines 41-42: configuration\<close>

definition getenv :: "(string \<rightharpoonup> string) \<Rightarrow> string \<Rightarrow> string \<Rightarrow> string" where
  "getenv vars name dflt = (case vars name of None \<Rightarrow> dflt | Some v \<Rightarrow> v)"

definition MEMCACHE :: "env \<Rightarrow> string" where
  "MEMCACHE e = getenv (environ e) ''MEMCACHE_SERVERS'' ''127.0.0.1:11211''"

definition KEY :: "env \<Rightarrow> string" where
  "KEY e = getenv (environ e) ''MEMCACHE_KEY'' ''mutex-default''"

subsection \<open>The memcached client\<close>

text \<open>
  Modelled from the spec: the \<open>memcache\<close> client library is not part of the
  repository. Section 6 of the specification gives its contract:
  \<open>AddIfAbsent(key, value) -> bool\<close> creates the key only if it does not exist and
  reports whether it did; \<open>Delete(key)\<close> removes the key and is not an error on a
  missing key; \<open>HealthCheck() -> bool\<close>.
\<close>

definition cli_add :: "string \<Rightarrow> string \<Rightarrow> world \<Rightarrow> bool \<times> world" where
  "cli_add k v w =
     (if store w k = None
      then (True, emit (Add k v True) (w\<lparr>store := (store w)(k \<mapsto> v)\<rparr>))
      else (False, emit (Add k v False) w))"

definition cli_delete :: "string \<Rightarrow> world \<Rightarrow> world" where
  "cli_delete k w = emit (Delete k) (w\<lparr>store := (store w)(k := None)\<rparr>)"

definition cli_get_stats :: "env \<Rightarrow> world \<Rightarrow> bool \<times> world" where
  "cli_get_stats e w = (reachable e, emit Get_stats w)"

subsection \<open>Lines 57-82: \<open>MemcacheMutex\<close> and \<open>panic\<close>\<close>

record mutex =
  key :: string
  retry :: bool

text \<open>\<open>panic(err)\<close>: log the error, raise \<open>SystemExit(err)\<close>.\<close>

definition panic :: "string \<Rightarrow> world \<Rightarrow> 'a result \<times> world" where
  "panic err w = (Raise (SystemExit err), log ERROR (Text err) w)"

definition MemcacheMutex_init :: "env \<Rightarrow> string \<Rightarrow> bool \<Rightarrow> world \<Rightarrow> mutex result \<times> world" where
  "MemcacheMutex_init e k r w =
     (case cli_get_stats e w of
        (stats, w1) \<Rightarrow>
          if \<not> stats
          then panic (''No reachable memcache servers: '' @ MEMCACHE e) w1
          else (Return \<lparr>key = k, retry = r\<rparr>,
                log DEBUG (Retry_if_lock_is_acquired r)
                  (log DEBUG (Using_memcache_key k) w1)))"

text \<open>\<open>time.sleep(0.1)\<close>: the other parties act on the store meanwhile.\<close>

definition sleep :: "env \<Rightarrow> world \<Rightarrow> world" where
  "sleep e w =
     emit (Sleep 100)
       (w\<lparr>store := apply_ops (others e (slept w)) (store w),
          slept := Suc (slept w)\<rparr>)"

text \<open>
  The \<open>while\<close> loop of lines 69-74. A successful \<open>add\<close> leaves the loop; a failed
  one raises \<open>AcquireDenied\<close> when retry is off, and otherwise logs, sleeps and
  tries again, without any bound.
\<close>

partial_function (option) acquire_loop ::
  "env \<Rightarrow> mutex \<Rightarrow> world \<Rightarrow> (unit result \<times> world) option" where
  "acquire_loop e m w =
     (case cli_add (key m) (utcnow e (slept w)) w of
        (ok, w1) \<Rightarrow>
          if ok then Some (Return (), w1)
          else if \<not> retry m
          then Some (Raise AcquireDenied, log DEBUG Acquired_by_somebody_else w1)
          else acquire_loop e m (sleep e (log DEBUG Retrying w1)))"

declare acquire_loop.simps [code]

text \<open>
  \<open>acquire\<close> and \<open>release\<close> are wrapped by \<open>logdebug\<close> (lines 45-52): a record
  before the call, and one after it when the call returns (none when it raises).
\<close>

definition acquire :: "env \<Rightarrow> mutex \<Rightarrow> world \<Rightarrow> (unit result \<times> world) option" where
  "acquire e m w =
     (case acquire_loop e m (log DEBUG (Calling ''acquire'') w) of
        None \<Rightarrow> None
      | Some (Return u, w1) \<Rightarrow> Some (Return u, log DEBUG (Returning ''acquire'') w1)
      | Some (r, w1) \<Rightarrow> Some (r, w1))"

definition release :: "mutex \<Rightarrow> world \<Rightarrow> world" where
  "release m w =
     log DEBUG (Returning ''release'')
       (cli_delete (key m) (log DEBUG (Calling ''release'') w))"

subsection \<open>How a process ends\<close>

text \<open>
  How the Python process ends: \<open>exit(ret)\<close>, an exception nobody caught (a
  \<open>SystemExit\<close> carrying a string included), or the image of the process was
  replaced by \<open>os.execvp\<close>.
\<close>

datatype ending = Exit nat | Uncaught exn | Exec "string list"

text \<open>
  What the operating system sees of it. \<open>exit(n)\<close> ends the process with the low
  eight bits of \<open>n\<close>; an uncaught exception, and a \<open>SystemExit\<close> with a string
  (which Python prints to stderr), end it with status 1; after \<open>execvp\<close> the
  process ends as the command does.
\<close>

definition proc_end_of :: "env \<Rightarrow> ending \<Rightarrow> proc_end" where
  "proc_end_of e en =
     (case en of
        Exit n \<Rightarrow> Exited (n mod 256)
      | Uncaught x \<Rightarrow> Exited 1
      | Exec args \<Rightarrow> (case command e args of Some t \<Rightarrow> t | None \<Rightarrow> Exited 1))"

text \<open>
  The status \<open>os.waitpid\<close> reports, as the Python library documents it for
  \<open>os.wait\<close>: a 16-bit number whose high byte is the exit code and whose low byte
  is the number of the signal that killed the process, with bit 7 set when a core
  file was produced. \<open>None\<close>: the child never ends and \<open>waitpid\<close> blocks.
\<close>

definition wait_status :: "proc_end \<Rightarrow> nat option" where
  "wait_status t =
     (case t of
        Exited c \<Rightarrow> Some ((c mod 256) * 256)
      | Killed sig core \<Rightarrow> Some (sig mod 128 + (if core then 128 else 0))
      | Runs_forever \<Rightarrow> None)"

subsection \<open>Lines 113-126 of \<open>main\<close>: the handlers of the guarded block\<close>

text \<open>
  What \<open>main\<close> does with the outcome \<open>r\<close> of the \<open>try\<close> body: \<open>ret\<close> is the
  returned value, or still the 0 of line 113 when the body raised;
  \<open>except AcquireDenied: pass\<close>; \<open>except Exception\<close> logs; \<open>finally\<close> releases
  the mutex whatever happened; then \<open>logging.shutdown(); exit(ret)\<close>. An exception
  that is not an \<open>Exception\<close> goes on after the \<open>finally\<close>. A process whose image
  was replaced runs none of this.
\<close>

definition guard_exit :: "mutex \<Rightarrow> nat result \<Rightarrow> world \<Rightarrow> ending \<times> world" where
  "guard_exit m r w =
     (case r of
        Return ret \<Rightarrow> (Exit ret, release m w)
      | Raise x \<Rightarrow>
          if x = AcquireDenied then (Exit 0, release m w)
          else if is_Exception x
          then (Exit 0, release m (log ERROR (Exception_raised_on_fork_exec x) w))
          else (Uncaught x, release m w)
      | Replaced args \<Rightarrow> (Exec args, w))"

subsection \<open>Lines 91-100: \<open>run_process\<close>\<close>

text \<open>
  The branch \<open>pid == 0\<close>, run by the child: \<open>args[0]\<close> raises on an empty list;
  \<open>os.execvp\<close> raises or replaces the process, and never returns.
\<close>

definition child_branch :: "env \<Rightarrow> string list \<Rightarrow> world \<Rightarrow> nat result \<times> world" where
  "child_branch e args w =
     (let w1 = log DEBUG Starting_process w in
      case args of
        [] \<Rightarrow> (Raise IndexError, w1)
      | a # _ \<Rightarrow>
          (case command e args of
             None \<Rightarrow> (Raise OSError, emit (Execvp a args) w1)
           | Some _ \<Rightarrow> (Replaced args, emit (Execvp a args) w1)))"

text \<open>
  The child is a copy of the parent, so an exception in its branch unwinds into the
  caller's handlers, here the parameter \<open>k\<close>. It shares the store with the parent;
  its events are recorded under \<open>Child\<close>.
\<close>

definition child :: "env \<Rightarrow> (nat result \<Rightarrow> world \<Rightarrow> ending \<times> world) \<Rightarrow> string list \<Rightarrow> world
    \<Rightarrow> ending \<times> world" where
  "child e k args w =
     (case child_branch e args (w\<lparr>trace := []\<rparr>) of
        (r, wc) \<Rightarrow>
          (case k r wc of
             (en, wc') \<Rightarrow> (en, wc'\<lparr>trace := trace w @ map Child (trace wc')\<rparr>)))"

text \<open>
  \<open>run_process\<close> as the parent runs it. The parent does nothing between \<open>fork\<close> and
  \<open>waitpid\<close>, so the child's Python code runs in between. \<open>None\<close>: \<open>waitpid\<close>
  blocks for ever.
\<close>

definition run_process ::
  "env \<Rightarrow> (nat result \<Rightarrow> world \<Rightarrow> ending \<times> world) \<Rightarrow> string list \<Rightarrow> world
    \<Rightarrow> (nat result \<times> world) option" where
  "run_process e k args w =
     (case fork_pid e of
        None \<Rightarrow> Some (Raise OSError, emit (Fork None) w)
      | Some p \<Rightarrow>
          (case child e k args (emit (Fork (Some (Suc p))) w) of
             (en, w1) \<Rightarrow>
               if waitpid_raises e
               then Some (Raise OSError, emit (Waitpid (Suc p)) w1)
               else (case wait_status (proc_end_of e en) of
                       None \<Rightarrow> None
                     | Some st \<Rightarrow>
                         Some (Return st,
                               log DEBUG (Process_exited (Suc p) st)
                                 (emit (Waitpid (Suc p)) w1)))))"

subsection \<open>Lines 102-126: \<open>main\<close>\<close>

text \<open>The guarded block, lines 113-126: the \<open>try\<close> body, then its handlers.\<close>

definition guard :: "env \<Rightarrow> mutex \<Rightarrow> string list \<Rightarrow> world \<Rightarrow> (ending \<times> world) option" where
  "guard e m args w =
     (case acquire e m w of
        None \<Rightarrow> None
      | Some (Return u, w1) \<Rightarrow>
          (case run_process e (guard_exit m) args w1 of
             None \<Rightarrow> None
           | Some (r, w2) \<Rightarrow> Some (guard_exit m r w2))
      | Some (Raise x, w1) \<Rightarrow> Some (guard_exit m (Raise x) w1)
      | Some (Replaced a, w1) \<Rightarrow> Some (guard_exit m (Replaced a) w1))"

text \<open>
  \<open>argv\<close> is \<open>sys.argv\<close>. \<open>args[0]\<close> on an empty \<open>sys.argv[1:]\<close> raises
  \<open>IndexError\<close> outside any \<open>try\<close>.
\<close>

definition main :: "env \<Rightarrow> string list \<Rightarrow> world \<Rightarrow> (ending \<times> world) option" where
  "main e argv w =
     (case drop 1 argv of
        [] \<Rightarrow> Some (Uncaught IndexError, w)
      | a # rest \<Rightarrow>
          (case (if a = ''-once'' then (True, rest) else (False, a # rest)) of
             (once, args) \<Rightarrow>
               (case MemcacheMutex_init e (KEY e) (\<not> once) w of
                  (Return m, w1) \<Rightarrow> guard e m args w1
                | (Raise x, w1) \<Rightarrow> Some (Uncaught x, w1)
                | (Replaced a, w1) \<Rightarrow> Some (Exec a, w1))))"

subsection \<open>Concrete runs\<close>

text \<open>
  A concrete environment for evaluating the definitions: default configuration, a
  reachable store, another holder that deletes the default key during this
  process's second sleep, a fork that succeeds, one command that exits with
  status 7, and every other command unknown to \<open>execvp\<close>.
\<close>

definition env_ex :: env where
  "env_ex =
     \<lparr>environ = Map.empty,
      reachable = True,
      utcnow = (\<lambda>n. ''2013-05-01 12:00:00''),
      others = (\<lambda>n. if n = 1 then [Other_delete ''mutex-default''] else []),
      fork_pid = Some 41,
      command =
        (\<lambda>args. if args = [''sh'', ''-c'', ''exit 7''] then Some (Exited 7) else None),
      waitpid_raises = False\<rparr>"

definition world_free :: world where
  "world_free = \<lparr>store = Map.empty, trace = [], slept = 0\<rparr>"

definition world_held :: world where
  "world_held =
     \<lparr>store = [''mutex-default'' \<mapsto> ''2013-05-01 11:59:00''], trace = [], slept = 0\<rparr>"

definition mutex_once :: mutex where
  "mutex_once = \<lparr>key = ''mutex-default'', retry = False\<rparr>"

definition mutex_retry :: mutex where
  "mutex_retry = \<lparr>key = ''mutex-default'', retry = True\<rparr>"

subsection \<open>Classes of events\<close>

text \<open>Operations on the lock key, by this process or by its child.\<close>

fun lock_op :: "event \<Rightarrow> bool" where
  "lock_op (Add _ _ _) = True"
| "lock_op (Delete _) = True"
| "lock_op (Child ev) = lock_op ev"
| "lock_op _ = False"

text \<open>Everything that has to do with a child process.\<close>

fun spawn_event :: "event \<Rightarrow> bool" where
  "spawn_event (Fork _) = True"
| "spawn_event (Execvp _ _) = True"
| "spawn_event (Waitpid _) = True"
| "spawn_event (Child _) = True"
| "spawn_event _ = False"

text \<open>
  A forked child is a copy of this process and runs the same code, so what it does
  counts as done by the guard. \<open>unchild\<close> removes the \<open>Child\<close> marks;
  \<open>release_calls\<close> is how often \<open>release()\<close> was entered (the record that
  \<open>logdebug\<close> writes before the call) and \<open>deletes k\<close> how many deletes of the
  key \<open>k\<close> reached the store, by this process and by its child together.
\<close>

fun unchild :: "event \<Rightarrow> event" where
  "unchild (Child ev) = unchild ev"
| "unchild ev = ev"

definition release_calls :: "event list \<Rightarrow> nat" where
  "release_calls tr = count_list (map unchild tr) (Log DEBUG (Calling ''release''))"

definition deletes :: "string \<Rightarrow> event list \<Rightarrow> nat" where
  "deletes k tr = count_list (map unchild tr) (Delete k)"

subsection \<open>What a waiting \<open>acquire\<close> sees\<close>

text \<open>
  A refused \<open>add\<close> changes nothing, so the store that the attempt after \<open>n\<close>
  further sleeps finds is the given one after the other parties' operations of
  the sleeps \<open>k\<close>, ..., \<open>k + n - 1\<close>.
\<close>

fun store_after :: "env \<Rightarrow> nat \<Rightarrow> nat \<Rightarrow> store \<Rightarrow> store" where
  "store_after e k 0 s = s"
| "store_after e k (Suc n) s = store_after e (Suc k) n (apply_ops (others e k) s)"

text \<open>The events of \<open>n\<close> refused attempts, the first one after \<open>k\<close> sleeps.\<close>

fun failed_rounds :: "env \<Rightarrow> mutex \<Rightarrow> nat \<Rightarrow> nat \<Rightarrow> event list" where
  "failed_rounds e m k 0 = []"
| "failed_rounds e m k (Suc n) =
     [Add (key m) (utcnow e k) False, Log DEBUG Retrying, Sleep 100] @
     failed_rounds e m (Suc k) n"

fun is_sleep :: "event \<Rightarrow> bool" where
  "is_sleep (Sleep _) = True"
| "is_sleep _ = False"

text \<open>
  An environment in which the holder releases during this process's first sleep
  and a third contender takes the key at once, before the sleep is over; nothing
  happens afterwards.
\<close>

definition env_starve :: env where
  "env_starve =
     env_ex\<lparr>others :=
       (\<lambda>n. if n = 0
            then [Other_delete ''mutex-default'',
                  Other_add ''mutex-default'' ''2013-05-01 12:00:00 third'']
            else [])\<rparr>"

section \<open>Properties\<close>

lemmas ex_defs = env_ex_def world_free_def world_held_def mutex_once_def mutex_retry_def

lemmas world_ops =
  emit_def log_def cli_add_def cli_delete_def cli_get_stats_def sleep_def release_def

subsection \<open>One round of the retry loop\<close>

lemma acquire_loop_free:
  "store w (key m) = None \<Longrightarrow>
   acquire_loop e m w =
     Some (Return (), emit (Add (key m) (utcnow e (slept w)) True)
                        (w\<lparr>store := (store w)(key m \<mapsto> utcnow e (slept w))\<rparr>))"
  by (subst acquire_loop.simps) (simp add: cli_add_def)

lemma acquire_loop_denied:
  "store w (key m) = Some v \<Longrightarrow> \<not> retry m \<Longrightarrow>
   acquire_loop e m w =
     Some (Raise AcquireDenied,
           log DEBUG Acquired_by_somebody_else
             (emit (Add (key m) (utcnow e (slept w)) False) w))"
  by (subst acquire_loop.simps) (simp add: cli_add_def)

lemma acquire_loop_retry:
  "store w (key m) = Some v \<Longrightarrow> retry m \<Longrightarrow>
   acquire_loop e m w =
     acquire_loop e m
       (sleep e (log DEBUG Retrying (emit (Add (key m) (utcnow e (slept w)) False) w)))"
  by (subst acquire_loop.simps) (simp add: cli_add_def)

lemma store_release: "store (release m w) = (store w)(key m := None)"
  by (simp add: world_ops)

lemma trace_release:
  "trace (release m w) =
     trace w @
     [Log DEBUG (Calling ''release''), Delete (key m), Log DEBUG (Returning ''release'')]"
  by (simp add: world_ops)

lemma slept_release: "slept (release m w) = slept w"
  by (simp add: world_ops)

subsection \<open>The constructor and one call of \<open>acquire\<close>\<close>

lemma init_unreachable:
  "\<not> reachable e \<Longrightarrow>
   MemcacheMutex_init e k r w =
     (Raise (SystemExit (''No reachable memcache servers: '' @ MEMCACHE e)),
      w\<lparr>trace := trace w @
         [Get_stats, Log ERROR (Text (''No reachable memcache servers: '' @ MEMCACHE e))]\<rparr>)"
  by (simp add: MemcacheMutex_init_def panic_def world_ops)

lemma init_reachable:
  "reachable e \<Longrightarrow>
   MemcacheMutex_init e k r w =
     (Return \<lparr>key = k, retry = r\<rparr>,
      w\<lparr>trace := trace w @
         [Get_stats, Log DEBUG (Using_memcache_key k),
          Log DEBUG (Retry_if_lock_is_acquired r)]\<rparr>)"
  by (simp add: MemcacheMutex_init_def world_ops)

lemma acquire_free:
  assumes "store w (key m) = None"
  shows "acquire e m w =
           Some (Return (),
                 w\<lparr>store := (store w)(key m \<mapsto> utcnow e (slept w)),
                   trace := trace w @
                     [Log DEBUG (Calling ''acquire''),
                      Add (key m) (utcnow e (slept w)) True,
                      Log DEBUG (Returning ''acquire'')]\<rparr>)"
proof -
  let ?w0 = "log DEBUG (Calling ''acquire'') w"
  have "store ?w0 (key m) = None"
    using assms by (simp add: world_ops)
  from acquire_loop_free [OF this]
  show ?thesis
    by (simp add: acquire_def world_ops)
qed

lemma acquire_denied:
  assumes "\<not> retry m" and "store w (key m) = Some v"
  shows "acquire e m w =
           Some (Raise AcquireDenied,
                 w\<lparr>trace := trace w @
                    [Log DEBUG (Calling ''acquire''),
                     Add (key m) (utcnow e (slept w)) False,
                     Log DEBUG Acquired_by_somebody_else]\<rparr>)"
proof -
  let ?w0 = "log DEBUG (Calling ''acquire'') w"
  have "store ?w0 (key m) = Some v"
    using assms(2) by (simp add: world_ops)
  from acquire_loop_denied [OF this assms(1)]
  show ?thesis
    by (simp add: acquire_def world_ops)
qed

text \<open>The whole run in fail-fast mode when the key is held.\<close>

lemma main_once_held:
  assumes "reachable e" and "store w (KEY e) = Some v"
  shows "main e (prog # ''-once'' # cmd) w =
           Some (Exit 0,
                 w\<lparr>store := (store w)(KEY e := None),
                   trace := trace w @
                     [Get_stats,
                      Log DEBUG (Using_memcache_key (KEY e)),
                      Log DEBUG (Retry_if_lock_is_acquired False),
                      Log DEBUG (Calling ''acquire''),
                      Add (KEY e) (utcnow e (slept w)) False,
                      Log DEBUG Acquired_by_somebody_else,
                      Log DEBUG (Calling ''release''),
                      Delete (KEY e),
                      Log DEBUG (Returning ''release'')]\<rparr>)"
proof -
  let ?m = "\<lparr>key = KEY e, retry = False\<rparr>"
  let ?w1 = "w\<lparr>trace := trace w @
         [Get_stats, Log DEBUG (Using_memcache_key (KEY e)),
          Log DEBUG (Retry_if_lock_is_acquired False)]\<rparr>"
  have "\<not> retry ?m" and "store ?w1 (key ?m) = Some v"
    using assms(2) by simp_all
  from acquire_denied [OF this]
  have "guard e ?m cmd ?w1 =
          Some (guard_exit ?m (Raise AcquireDenied)
                 (?w1\<lparr>trace := trace ?w1 @
                    [Log DEBUG (Calling ''acquire''),
                     Add (key ?m) (utcnow e (slept ?w1)) False,
                     Log DEBUG Acquired_by_somebody_else]\<rparr>))"
    by (simp add: guard_def)
  then show ?thesis
    using assms(1)
    by (simp add: main_def init_reachable guard_exit_def world_ops)
qed

subsection \<open>Fail-fast acquisition\<close>

text \<open>
  Claim C5. With retry disabled and the key already in the store, \<open>acquire()\<close>
  raises \<open>AcquireDenied\<close> (the script's own exception class, not one of the
  generic errors) on the first failed \<open>add\<close>: the call's whole effect is the
  decorator's record, one refused \<open>add\<close> and one debug record. There is no
  \<open>Sleep\<close> event and no second \<open>add\<close>, and store and sleep count are unchanged.
\<close>

theorem acquire_denied_immediately:
  assumes "\<not> retry m" and "store w (key m) = Some v"
  shows "acquire e m w =
           Some (Raise AcquireDenied,
                 w\<lparr>trace := trace w @
                    [Log DEBUG (Calling ''acquire''),
                     Add (key m) (utcnow e (slept w)) False,
                     Log DEBUG Acquired_by_somebody_else]\<rparr>)"
  using assms by (rule acquire_denied)

theorem acquire_denied_immediately_witness:
  "\<not> retry mutex_once \<and>
   store world_held (key mutex_once) = Some ''2013-05-01 11:59:00'' \<and>
   acquire env_ex mutex_once world_held =
     Some (Raise AcquireDenied,
           \<lparr>store = [''mutex-default'' \<mapsto> ''2013-05-01 11:59:00''],
            trace = [Log DEBUG (Calling ''acquire''),
                     Add ''mutex-default'' ''2013-05-01 12:00:00'' False,
                     Log DEBUG Acquired_by_somebody_else],
            slept = 0\<rparr>)"
  using acquire_denied_immediately
    [of mutex_once world_held "''2013-05-01 11:59:00''" env_ex]
  by (simp add: ex_defs)

subsection \<open>No arguments\<close>

text \<open>
  Claim C10. When \<open>sys.argv\<close> holds at most the program's name, so that
  \<open>sys.argv[1:]\<close> is empty, \<open>main\<close> ends with an \<open>IndexError\<close> that nothing
  catches, raised by \<open>args[0]\<close> on line 106. The world is unchanged: no mutex was
  constructed and no store operation (not even the health check) was issued.
\<close>

theorem main_no_arguments:
  "length argv \<le> 1 \<Longrightarrow> main e argv w = Some (Uncaught IndexError, w)"
  by (simp add: main_def)

theorem main_no_arguments_witness:
  "length [''sherlock.py''] \<le> 1 \<and>
   main env_ex [''sherlock.py''] world_held = Some (Uncaught IndexError, world_held) \<and>
   proc_end_of env_ex (Uncaught IndexError) = Exited 1"
  using main_no_arguments [of "[''sherlock.py'']" env_ex world_held]
  by (simp add: proc_end_of_def)

subsection \<open>Acquire, then release\<close>

text \<open>
  Claim C6. Whatever the store held before, when \<open>acquire()\<close> has returned
  normally a following \<open>release()\<close> leaves the key absent. \<open>release()\<close> itself
  is unconditional: from any world it removes the key and nothing else, also when
  the key holds a value \<open>v\<close> that somebody else wrote, and all it issues is one
  \<open>delete\<close> between the two records of the decorator; it never reads the store.
\<close>

theorem acquire_then_release_key_absent:
  "(acquire e m w = Some (Return u, w1) \<longrightarrow> store (release m w1) (key m) = None) \<and>
   store (release m w') = (store w')(key m := None) \<and>
   (\<forall>v. store (release m (w'\<lparr>store := (store w')(key m \<mapsto> v)\<rparr>)) (key m) = None) \<and>
   trace (release m w') =
     trace w' @
     [Log DEBUG (Calling ''release''), Delete (key m), Log DEBUG (Returning ''release'')]"
  by (simp add: store_release trace_release)

theorem acquire_then_release_key_absent_witness:
  "acquire env_ex mutex_retry world_free =
     Some (Return (),
           \<lparr>store = [''mutex-default'' \<mapsto> ''2013-05-01 12:00:00''],
            trace = [Log DEBUG (Calling ''acquire''),
                     Add ''mutex-default'' ''2013-05-01 12:00:00'' True,
                     Log DEBUG (Returning ''acquire'')],
            slept = 0\<rparr>) \<and>
   store (release mutex_retry
           \<lparr>store = [''mutex-default'' \<mapsto> ''2013-05-01 12:00:00''],
            trace = [Log DEBUG (Calling ''acquire''),
                     Add ''mutex-default'' ''2013-05-01 12:00:00'' True,
                     Log DEBUG (Returning ''acquire'')],
            slept = 0\<rparr>) ''mutex-default'' = None \<and>
   store (release mutex_retry world_held) ''mutex-default'' = None"
proof -
  have a: "acquire env_ex mutex_retry world_free =
     Some (Return (),
           \<lparr>store = [''mutex-default'' \<mapsto> ''2013-05-01 12:00:00''],
            trace = [Log DEBUG (Calling ''acquire''),
                     Add ''mutex-default'' ''2013-05-01 12:00:00'' True,
                     Log DEBUG (Returning ''acquire'')],
            slept = 0\<rparr>)"
    by (simp add: acquire_free ex_defs)
  from a acquire_then_release_key_absent
    [of env_ex mutex_retry world_free "()" _ world_held]
  show ?thesis
    by (simp add: ex_defs)
qed

subsection \<open>An unreachable store\<close>

text \<open>
  Claim C7. When the health check finds no reachable server, \<open>main\<close> ends, for
  every argument list, with an exception that nothing catches, hence with exit
  status 1; the store is unchanged and the events of the run contain no \<open>add\<close>
  and no \<open>delete\<close>. When at least one argument is given the exception is the
  \<open>SystemExit\<close> of \<open>panic\<close>, carrying the message that names the servers, and
  the run consists of the health check and the error record of that message.
\<close>

theorem unreachable_store_is_fatal:
  assumes "\<not> reachable e"
  shows "\<exists>x tr. main e argv w = Some (Uncaught x, w\<lparr>trace := trace w @ tr\<rparr>) \<and>
           proc_end_of e (Uncaught x) = Exited 1 \<and>
           filter lock_op tr = [] \<and>
           (drop 1 argv \<noteq> [] \<longrightarrow>
              x = SystemExit (''No reachable memcache servers: '' @ MEMCACHE e) \<and>
              tr = [Get_stats,
                    Log ERROR (Text (''No reachable memcache servers: '' @ MEMCACHE e))])"
proof (cases "drop 1 argv")
  case Nil
  then have "main e argv w = Some (Uncaught IndexError, w\<lparr>trace := trace w @ []\<rparr>)"
    by (simp add: main_def)
  with Nil show ?thesis
    by (intro exI [of _ IndexError] exI [of _ "[]"]) (simp add: proc_end_of_def)
next
  case (Cons a rest)
  then show ?thesis
    using assms by (simp add: main_def init_unreachable proc_end_of_def)
qed

theorem unreachable_store_is_fatal_witness:
  "\<not> reachable (env_ex\<lparr>reachable := False\<rparr>) \<and>
   main (env_ex\<lparr>reachable := False\<rparr>) [''sherlock.py'', ''sh'', ''-c'', ''exit 7''] world_held =
     Some (Uncaught (SystemExit ''No reachable memcache servers: 127.0.0.1:11211''),
           world_held\<lparr>trace :=
             [Get_stats,
              Log ERROR (Text ''No reachable memcache servers: 127.0.0.1:11211'')]\<rparr>) \<and>
   proc_end_of (env_ex\<lparr>reachable := False\<rparr>)
     (Uncaught (SystemExit ''No reachable memcache servers: 127.0.0.1:11211'')) = Exited 1"
  using unreachable_store_is_fatal
    [of "env_ex\<lparr>reachable := False\<rparr>" "[''sherlock.py'', ''sh'', ''-c'', ''exit 7'']" world_held]
  by (simp add: ex_defs MEMCACHE_def getenv_def)

subsection \<open>Fail-fast mode with the lock held\<close>

text \<open>
  Claim C9. With \<open>-once\<close> as first argument, a reachable store and the key
  present, \<open>main\<close> ends by \<open>exit(0)\<close>, that is with exit status 0, and the
  events of the run contain no fork, no exec, no wait and no event of a child
  process: the command is never spawned. The run did go through the refusal (the
  record \<open>Acquired by somebody else\<close> is in the trace).
\<close>

theorem denied_skips_the_command:
  assumes "reachable e" and "store w (KEY e) = Some v"
  shows "\<exists>w' tr. main e (prog # ''-once'' # cmd) w = Some (Exit 0, w') \<and>
           proc_end_of e (Exit 0) = Exited 0 \<and>
           trace w' = trace w @ tr \<and>
           filter spawn_event tr = [] \<and>
           Log DEBUG Acquired_by_somebody_else \<in> set tr"
  using main_once_held [OF assms, of prog cmd]
  by (simp add: proc_end_of_def)

theorem denied_skips_the_command_witness:
  "reachable env_ex \<and>
   store world_held (KEY env_ex) = Some ''2013-05-01 11:59:00'' \<and>
   (\<exists>w'. main env_ex [''sherlock.py'', ''-once'', ''sh'', ''-c'', ''exit 7''] world_held =
            Some (Exit 0, w') \<and>
          trace w' =
            [Get_stats,
             Log DEBUG (Using_memcache_key ''mutex-default''),
             Log DEBUG (Retry_if_lock_is_acquired False),
             Log DEBUG (Calling ''acquire''),
             Add ''mutex-default'' ''2013-05-01 12:00:00'' False,
             Log DEBUG Acquired_by_somebody_else,
             Log DEBUG (Calling ''release''),
             Delete ''mutex-default'',
             Log DEBUG (Returning ''release'')])"
proof -
  have r: "reachable env_ex"
    and h: "store world_held (KEY env_ex) = Some ''2013-05-01 11:59:00''"
    by (simp_all add: ex_defs KEY_def getenv_def)
  from denied_skips_the_command [OF r h, of "''sherlock.py''" "[''sh'', ''-c'', ''exit 7'']"]
    main_once_held [OF r h, of "''sherlock.py''" "[''sh'', ''-c'', ''exit 7'']"]
  show ?thesis
    using r h by (simp add: ex_defs KEY_def getenv_def)
qed

text \<open>
  Claim C2. The same run does not leave the lock record alone: the \<open>finally\<close>
  clause runs \<open>release()\<close> although \<open>acquire()\<close> raised \<open>AcquireDenied\<close>, so
  after the run the key, which another contender held, is absent from the store
  and a \<open>delete\<close> of it is in the trace.
\<close>

theorem once_run_deletes_held_lock:
  assumes "reachable e" and "store w (KEY e) = Some v"
  shows "\<exists>w'. main e (prog # ''-once'' # cmd) w = Some (Exit 0, w') \<and>
           store w' (KEY e) = None \<and>
           Delete (KEY e) \<in> set (trace w')"
  using main_once_held [OF assms, of prog cmd]
  by simp

theorem once_run_deletes_held_lock_witness:
  "reachable env_ex \<and>
   store world_held ''mutex-default'' = Some ''2013-05-01 11:59:00'' \<and>
   (\<exists>w'. main env_ex [''sherlock.py'', ''-once'', ''sh'', ''-c'', ''exit 7''] world_held =
            Some (Exit 0, w') \<and>
          store w' ''mutex-default'' = None)"
proof -
  have r: "reachable env_ex"
    and h: "store world_held (KEY env_ex) = Some ''2013-05-01 11:59:00''"
    by (simp_all add: ex_defs KEY_def getenv_def)
  have k: "KEY env_ex = ''mutex-default''"
    by (simp add: ex_defs KEY_def getenv_def)
  from once_run_deletes_held_lock [OF r h, of "''sherlock.py''" "[''sh'', ''-c'', ''exit 7'']"]
  show ?thesis
    using r h unfolding k by auto
qed

subsection \<open>The command runs\<close>

lemma guard_acquired:
  "acquire e m w = Some (Return u, w1) \<Longrightarrow>
   guard e m args w =
     (case run_process e (guard_exit m) args w1 of
        None \<Rightarrow> None
      | Some (r, w2) \<Rightarrow> Some (guard_exit m r w2))"
  by (simp add: guard_def)

lemma run_process_command:
  assumes "fork_pid e = Some p" and "\<not> waitpid_raises e"
    and "command e (a # as) = Some t" and "wait_status t = Some st"
  shows "run_process e (guard_exit m) (a # as) w =
           Some (Return st,
                 w\<lparr>trace := trace w @
                    [Fork (Some (Suc p)),
                     Child (Log DEBUG Starting_process),
                     Child (Execvp a (a # as)),
                     Waitpid (Suc p),
                     Log DEBUG (Process_exited (Suc p) st)]\<rparr>)"
  using assms
  by (simp add: run_process_def child_def child_branch_def guard_exit_def proc_end_of_def
      emit_def log_def)

lemma main_command:
  assumes "reachable e" and "store w (KEY e) = None" and "a \<noteq> ''-once''"
    and "fork_pid e = Some p" and "\<not> waitpid_raises e"
    and "command e (a # as) = Some t" and "wait_status t = Some st"
  shows "main e (prog # a # as) w =
           Some (Exit st,
                 w\<lparr>store := (store w)(KEY e := None),
                   trace := trace w @
                     [Get_stats,
                      Log DEBUG (Using_memcache_key (KEY e)),
                      Log DEBUG (Retry_if_lock_is_acquired True),
                      Log DEBUG (Calling ''acquire''),
                      Add (KEY e) (utcnow e (slept w)) True,
                      Log DEBUG (Returning ''acquire''),
                      Fork (Some (Suc p)),
                      Child (Log DEBUG Starting_process),
                      Child (Execvp a (a # as)),
                      Waitpid (Suc p),
                      Log DEBUG (Process_exited (Suc p) st),
                      Log DEBUG (Calling ''release''),
                      Delete (KEY e),
                      Log DEBUG (Returning ''release'')]\<rparr>)"
proof -
  let ?m = "\<lparr>key = KEY e, retry = True\<rparr>"
  let ?w1 = "w\<lparr>trace := trace w @
         [Get_stats, Log DEBUG (Using_memcache_key (KEY e)),
          Log DEBUG (Retry_if_lock_is_acquired True)]\<rparr>"
  have "store ?w1 (key ?m) = None"
    using assms(2) by simp
  from guard_acquired [OF acquire_free [OF this]]
  have "guard e ?m (a # as) ?w1 =
          Some (guard_exit ?m (Return st)
            (?w1\<lparr>store := (store ?w1)(key ?m \<mapsto> utcnow e (slept ?w1)),
                 trace := trace ?w1 @
                   [Log DEBUG (Calling ''acquire''),
                    Add (key ?m) (utcnow e (slept ?w1)) True,
                    Log DEBUG (Returning ''acquire''),
                    Fork (Some (Suc p)),
                    Child (Log DEBUG Starting_process),
                    Child (Execvp a (a # as)),
                    Waitpid (Suc p),
                    Log DEBUG (Process_exited (Suc p) st)]\<rparr>))"
    by (simp add: run_process_command [OF assms(4-7)])
  then show ?thesis
    using assms(1,3)
    by (simp add: main_def init_reachable guard_exit_def world_ops)
qed

text \<open>
  Claim C1. On the normal path (store reachable, key free, fork and wait succeed,
  the command starts and exits with code \<open>c\<close>) \<open>run_process\<close> returns what
  \<open>os.waitpid\<close> reported, the 16-bit wait status \<open>256 * c\<close>, and \<open>main\<close> hands
  that number to \<open>exit\<close>. The process therefore ends with its low eight bits:
  exit status 0 for every \<open>c\<close>, not \<open>c\<close>. For the command that exits with 7 the
  script calls \<open>exit(1792)\<close> and its exit status is 0.
\<close>

theorem child_exit_code_is_lost:
  assumes "reachable e" and "store w (KEY e) = None" and "a \<noteq> ''-once''"
    and "fork_pid e = Some p" and "\<not> waitpid_raises e"
    and "command e (a # as) = Some (Exited c)"
  shows "\<exists>w'. main e (prog # a # as) w = Some (Exit ((c mod 256) * 256), w') \<and>
           proc_end_of e (Exit ((c mod 256) * 256)) = Exited 0"
proof -
  have "wait_status (Exited c) = Some ((c mod 256) * 256)"
    by (simp add: wait_status_def)
  from main_command [OF assms(1-6) this, of prog]
  show ?thesis
    by (simp add: proc_end_of_def)
qed

theorem child_exit_code_is_lost_witness:
  "command env_ex [''sh'', ''-c'', ''exit 7''] = Some (Exited 7) \<and>
   (\<exists>w'. main env_ex [''sherlock.py'', ''sh'', ''-c'', ''exit 7''] world_free =
            Some (Exit 1792, w')) \<and>
   proc_end_of env_ex (Exit 1792) = Exited 0"
proof -
  have "reachable env_ex" and "store world_free (KEY env_ex) = None"
    and "''sh'' \<noteq> ''-once''" and "fork_pid env_ex = Some 41"
    and "\<not> waitpid_raises env_ex"
    and "command env_ex [''sh'', ''-c'', ''exit 7''] = Some (Exited 7)"
    by (simp_all add: ex_defs)
  from child_exit_code_is_lost [OF this, of "''sherlock.py''"]
  show ?thesis
    by (simp add: ex_defs)
qed

subsection \<open>The command cannot be spawned or waited for\<close>

lemma guard_fork_fails:
  assumes "acquire e m w = Some (Return u, w1)" and "fork_pid e = None"
  shows "guard e m args w =
           Some (Exit 0,
                 release m (log ERROR (Exception_raised_on_fork_exec OSError)
                              (emit (Fork None) w1)))"
  using assms(2) by (simp add: guard_acquired [OF assms(1)] run_process_def guard_exit_def)

lemma guard_waitpid_raises:
  assumes "acquire e m w = Some (Return u, w1)"
    and "fork_pid e = Some p" and "waitpid_raises e"
  shows "\<exists>w2. guard e m args w =
           Some (Exit 0, release m (log ERROR (Exception_raised_on_fork_exec OSError) w2))"
proof -
  obtain en wc where "child e (guard_exit m) args (emit (Fork (Some (Suc p))) w1) = (en, wc)"
    by (cases "child e (guard_exit m) args (emit (Fork (Some (Suc p))) w1)")
  with assms(2,3)
  have "guard e m args w =
          Some (Exit 0, release m (log ERROR (Exception_raised_on_fork_exec OSError)
                                     (emit (Waitpid (Suc p)) wc)))"
    by (simp add: guard_acquired [OF assms(1)] run_process_def guard_exit_def)
  then show ?thesis ..
qed

lemma child_exec_fails:
  assumes "command e args = None"
  shows "\<exists>x wc. child e (guard_exit m) args w = (Exit 0, wc) \<and>
           Child (Log ERROR (Exception_raised_on_fork_exec x)) \<in> set (trace wc)"
  using assms
  by (cases args)
    (auto simp: child_def child_branch_def guard_exit_def world_ops)

lemma guard_exec_fails:
  assumes "acquire e m w = Some (Return u, w1)"
    and "fork_pid e = Some p" and "\<not> waitpid_raises e" and "command e args = None"
  shows "\<exists>x w2. guard e m args w = Some (Exit 0, release m w2) \<and>
           Child (Log ERROR (Exception_raised_on_fork_exec x)) \<in> set (trace w2)"
proof -
  from child_exec_fails [OF assms(4)]
  obtain x wc where c: "child e (guard_exit m) args (emit (Fork (Some (Suc p))) w1) = (Exit 0, wc)"
    and x: "Child (Log ERROR (Exception_raised_on_fork_exec x)) \<in> set (trace wc)"
    by blast
  let ?w2 = "log DEBUG (Process_exited (Suc p) 0) (emit (Waitpid (Suc p)) wc)"
  have "guard e m args w = Some (Exit 0, release m ?w2)"
    using assms(2,3) c
    by (simp add: guard_acquired [OF assms(1)] run_process_def guard_exit_def
        proc_end_of_def wait_status_def)
  moreover have "Child (Log ERROR (Exception_raised_on_fork_exec x)) \<in> set (trace ?w2)"
    using x by (simp add: world_ops)
  ultimately show ?thesis by blast
qed

text \<open>
  Claim C8. After a successful \<open>acquire()\<close>, when \<open>os.fork\<close> raises, or
  \<open>os.waitpid\<close> raises, or \<open>os.execvp\<close> raises in the child (the command does
  not exist), the guard does not end with an exception: it ends by \<open>exit(0)\<close>,
  exit status 0. The exception was logged at ERROR by the process that caught it
  (the parent, or the child whose \<open>execvp\<close> failed), \<open>release()\<close> is the last
  thing the guard did, and the key is absent afterwards.
\<close>

theorem spawn_failure_is_absorbed:
  assumes "acquire e m w = Some (Return u, w1)"
    and "fork_pid e = None \<or> waitpid_raises e \<or> command e args = None"
  shows "\<exists>x w2. guard e m args w = Some (Exit 0, release m w2) \<and>
           proc_end_of e (Exit 0) = Exited 0 \<and>
           (Log ERROR (Exception_raised_on_fork_exec x) \<in> set (trace w2) \<or>
            Child (Log ERROR (Exception_raised_on_fork_exec x)) \<in> set (trace w2)) \<and>
           store (release m w2) (key m) = None"
proof -
  have pe: "proc_end_of e (Exit 0) = Exited 0"
    by (simp add: proc_end_of_def)
  have st: "store (release m w2) (key m) = None" for w2
    by (simp add: store_release)
  consider (fork) "fork_pid e = None"
    | (wait) p where "fork_pid e = Some p" "waitpid_raises e"
    | (exec) p where "fork_pid e = Some p" "\<not> waitpid_raises e" "command e args = None"
    using assms(2) by (cases "fork_pid e") auto
  then show ?thesis
  proof cases
    case fork
    let ?w2 = "log ERROR (Exception_raised_on_fork_exec OSError) (emit (Fork None) w1)"
    have "Log ERROR (Exception_raised_on_fork_exec OSError) \<in> set (trace ?w2)"
      by (simp add: world_ops)
    with guard_fork_fails [OF assms(1) fork, of args] pe st show ?thesis
      by blast
  next
    case wait
    from guard_waitpid_raises [OF assms(1) wait, of args]
    obtain w2 where g: "guard e m args w =
        Some (Exit 0, release m (log ERROR (Exception_raised_on_fork_exec OSError) w2))"
      by blast
    let ?w2 = "log ERROR (Exception_raised_on_fork_exec OSError) w2"
    have "Log ERROR (Exception_raised_on_fork_exec OSError) \<in> set (trace ?w2)"
      by (simp add: world_ops)
    with g pe st show ?thesis
      by blast
  next
    case exec
    from guard_exec_fails [OF assms(1) exec]
    show ?thesis
      using pe st by blast
  qed
qed

theorem spawn_failure_is_absorbed_witness:
  "acquire env_ex mutex_retry world_free =
     Some (Return (),
           \<lparr>store = [''mutex-default'' \<mapsto> ''2013-05-01 12:00:00''],
            trace = [Log DEBUG (Calling ''acquire''),
                     Add ''mutex-default'' ''2013-05-01 12:00:00'' True,
                     Log DEBUG (Returning ''acquire'')],
            slept = 0\<rparr>) \<and>
   command env_ex [''no-such-command''] = None \<and>
   (\<exists>w'. guard env_ex mutex_retry [''no-such-command''] world_free = Some (Exit 0, w') \<and>
          store w' ''mutex-default'' = None)"
proof -
  have a: "acquire env_ex mutex_retry world_free =
     Some (Return (),
           \<lparr>store = [''mutex-default'' \<mapsto> ''2013-05-01 12:00:00''],
            trace = [Log DEBUG (Calling ''acquire''),
                     Add ''mutex-default'' ''2013-05-01 12:00:00'' True,
                     Log DEBUG (Returning ''acquire'')],
            slept = 0\<rparr>)"
    by (simp add: acquire_free ex_defs)
  have c: "command env_ex [''no-such-command''] = None"
    by (simp add: ex_defs)
  then have "fork_pid env_ex = None \<or> waitpid_raises env_ex \<or>
      command env_ex [''no-such-command''] = None"
    by simp
  from spawn_failure_is_absorbed [OF a this]
  have "\<exists>w'. guard env_ex mutex_retry [''no-such-command''] world_free = Some (Exit 0, w') \<and>
          store w' ''mutex-default'' = None"
    by (auto simp: mutex_retry_def)
  with a c show ?thesis
    by blast
qed

subsection \<open>Release on every path\<close>

lemma release_calls_simps:
  "release_calls [] = 0"
  "release_calls (tr @ tr') = release_calls tr + release_calls tr'"
  "release_calls (ev # tr) =
     (if unchild ev = Log DEBUG (Calling ''release'') then 1 else 0) + release_calls tr"
  "release_calls (map Child xs) = release_calls xs"
  by (simp_all add: release_calls_def comp_def)

lemma deletes_simps:
  "deletes k [] = 0"
  "deletes k (tr @ tr') = deletes k tr + deletes k tr'"
  "deletes k (ev # tr) = (if unchild ev = Delete k then 1 else 0) + deletes k tr"
  "deletes k (map Child xs) = deletes k xs"
  by (simp_all add: deletes_def comp_def)

lemma acquire_loop_frame:
  "acquire_loop e m w = Some rw \<Longrightarrow>
   (fst rw = Return () \<or> fst rw = Raise AcquireDenied) \<and>
   release_calls (trace (snd rw)) = release_calls (trace w) \<and>
   deletes k (trace (snd rw)) = deletes k (trace w)"
proof (induction rule: acquire_loop.raw_induct [rotated 1, consumes 1, case_names step])
  case (step loop e m w rw)
  show ?case
  proof (cases "store w (key m)")
    case None
    with step(2) show ?thesis
      by (auto simp: world_ops release_calls_simps deletes_simps)
  next
    case (Some v)
    show ?thesis
    proof (cases "retry m")
      case False
      with Some step(2) show ?thesis
        by (auto simp: world_ops release_calls_simps deletes_simps)
    next
      case True
      with Some step(2)
      have "loop e m (sleep e (log DEBUG Retrying
              (emit (Add (key m) (utcnow e (slept w)) False) w))) = Some rw"
        by (simp add: cli_add_def)
      from step(1) [OF this] show ?thesis
        by (simp add: world_ops release_calls_simps deletes_simps)
    qed
  qed
qed

lemma acquire_frame:
  assumes "acquire e m w = Some (r, w1)"
  shows "(r = Return () \<or> r = Raise AcquireDenied) \<and>
         release_calls (trace w1) = release_calls (trace w) \<and>
         deletes k (trace w1) = deletes k (trace w)"
proof -
  from assms obtain r0 w0
    where l: "acquire_loop e m (log DEBUG (Calling ''acquire'') w) = Some (r0, w0)"
    by (auto simp: acquire_def split: option.splits)
  from acquire_loop_frame [OF l, of k]
  have f: "r0 = Return () \<or> r0 = Raise AcquireDenied"
    "release_calls (trace w0) = release_calls (trace w)"
    "deletes k (trace w0) = deletes k (trace w)"
    by (simp_all add: world_ops release_calls_simps deletes_simps)
  from f(1) show ?thesis
  proof
    assume "r0 = Return ()"
    with assms l f(2,3) show ?thesis
      by (auto simp: acquire_def world_ops release_calls_simps deletes_simps)
  next
    assume "r0 = Raise AcquireDenied"
    with assms l f(2,3) show ?thesis
      by (auto simp: acquire_def)
  qed
qed

lemma release_counts:
  "release_calls (trace (release m w)) = Suc (release_calls (trace w))"
  "deletes (key m) (trace (release m w)) = Suc (deletes (key m) (trace w))"
  by (simp_all add: trace_release release_calls_simps deletes_simps)

lemma log_counts:
  "l \<noteq> DEBUG \<or> x \<noteq> Calling ''release'' \<Longrightarrow>
   release_calls (trace (log l x w)) = release_calls (trace w)"
  "deletes k (trace (log l x w)) = deletes k (trace w)"
  by (auto simp: world_ops release_calls_simps deletes_simps)

text \<open>What the forked child adds: nothing when the command starts, one release when
  its branch raises.\<close>

lemma child_counts:
  assumes "child e (guard_exit m) args w = (en, wc)"
  shows "release_calls (trace wc) =
           release_calls (trace w) + (if args = [] \<or> command e args = None then 1 else 0) \<and>
         deletes (key m) (trace wc) =
           deletes (key m) (trace w) + (if args = [] \<or> command e args = None then 1 else 0)"
proof (cases args)
  case Nil
  with assms show ?thesis
    by (auto simp: child_def child_branch_def guard_exit_def world_ops
        release_calls_simps deletes_simps)
next
  case (Cons a as)
  show ?thesis
  proof (cases "command e args")
    case None
    with Cons assms show ?thesis
      by (auto simp: child_def child_branch_def guard_exit_def world_ops
          release_calls_simps deletes_simps)
  next
    case (Some t)
    with Cons assms show ?thesis
      by (auto simp: child_def child_branch_def guard_exit_def world_ops
          release_calls_simps deletes_simps)
  qed
qed

lemma run_process_counts:
  assumes "run_process e (guard_exit m) args w = Some (r, w')"
  shows "((\<exists>st. r = Return st) \<or> r = Raise OSError) \<and>
         release_calls (trace w') =
           release_calls (trace w) +
           (if fork_pid e \<noteq> None \<and> (args = [] \<or> command e args = None) then 1 else 0) \<and>
         deletes (key m) (trace w') =
           deletes (key m) (trace w) +
           (if fork_pid e \<noteq> None \<and> (args = [] \<or> command e args = None) then 1 else 0)"
proof (cases "fork_pid e")
  case None
  with assms show ?thesis
    by (auto simp: run_process_def world_ops release_calls_simps deletes_simps)
next
  case (Some p)
  obtain en wc where c: "child e (guard_exit m) args (emit (Fork (Some (Suc p))) w) = (en, wc)"
    by (cases "child e (guard_exit m) args (emit (Fork (Some (Suc p))) w)")
  from child_counts [OF c]
  have cc: "release_calls (trace wc) =
              release_calls (trace w) + (if args = [] \<or> command e args = None then 1 else 0)"
    "deletes (key m) (trace wc) =
              deletes (key m) (trace w) + (if args = [] \<or> command e args = None then 1 else 0)"
    by (simp_all add: world_ops release_calls_simps deletes_simps)
  from assms Some c
  have "(r = Raise OSError \<and> w' = emit (Waitpid (Suc p)) wc) \<or>
        (\<exists>st. r = Return st \<and>
           w' = log DEBUG (Process_exited (Suc p) st) (emit (Waitpid (Suc p)) wc))"
    by (auto simp: run_process_def split: if_splits option.splits)
  with Some cc show ?thesis
    by (auto simp: world_ops release_calls_simps deletes_simps)
qed

text \<open>
  Claim C3. Whenever the guarded block of \<open>main\<close> comes to its end, \<open>release()\<close>
  is the last thing it did, but \<open>release()\<close> is not entered exactly once on every
  path. It is entered once, and one \<open>delete\<close> of the key is issued, when
  acquisition was denied, when \<open>fork\<close> failed and when the command was started.
  When the child's branch of \<open>run_process\<close> raises (\<open>execvp\<close> fails, or the
  argument list is empty), the exception unwinds in the forked child into the
  handlers of \<open>main\<close>: the child runs the \<open>finally\<close> clause and exits, and the
  parent runs it again after \<open>waitpid\<close>. On that path \<open>release()\<close> is entered
  twice and the store receives two deletes of the key.
\<close>

theorem release_calls_of_guard:
  assumes "guard e m args w = Some (en, w')"
  shows "release_calls (trace w') =
           release_calls (trace w) +
           (if (\<exists>w1. acquire e m w = Some (Return (), w1)) \<and> fork_pid e \<noteq> None \<and>
               (args = [] \<or> command e args = None)
            then 2 else 1) \<and>
         deletes (key m) (trace w') =
           deletes (key m) (trace w) +
           (if (\<exists>w1. acquire e m w = Some (Return (), w1)) \<and> fork_pid e \<noteq> None \<and>
               (args = [] \<or> command e args = None)
            then 2 else 1) \<and>
         (\<exists>w2. w' = release m w2)"
proof -
  from assms obtain r w1 where a: "acquire e m w = Some (r, w1)"
    by (auto simp: guard_def split: option.splits)
  note fa = acquire_frame [OF a, of "key m"]
  from fa have "r = Return () \<or> r = Raise AcquireDenied"
    by simp
  then show ?thesis
  proof
    assume r: "r = Raise AcquireDenied"
    with assms a have "w' = release m w1"
      by (simp add: guard_def guard_exit_def)
    with fa a r show ?thesis
      by (auto simp: release_counts)
  next
    assume r: "r = Return ()"
    with assms a obtain r2 w2
      where p: "run_process e (guard_exit m) args w1 = Some (r2, w2)"
        and g: "guard_exit m r2 w2 = (en, w')"
      by (auto simp: guard_def split: option.splits)
    note fp = run_process_counts [OF p]
    from fp have "(\<exists>st. r2 = Return st) \<or> r2 = Raise OSError"
      by simp
    then have "w' = release m w2 \<or>
               w' = release m (log ERROR (Exception_raised_on_fork_exec OSError) w2)"
      using g by (auto simp: guard_exit_def)
    then show ?thesis
    proof
      assume "w' = release m w2"
      with fa fp a r show ?thesis
        by (auto simp: release_counts)
    next
      assume "w' = release m (log ERROR (Exception_raised_on_fork_exec OSError) w2)"
      with fa fp a r show ?thesis
        by (auto simp: release_counts log_counts)
    qed
  qed
qed

theorem release_calls_of_guard_witness:
  "guard env_ex mutex_retry [''no-such-command''] world_free =
     Some (Exit 0,
           \<lparr>store = Map.empty,
            trace =
              [Log DEBUG (Calling ''acquire''),
               Add ''mutex-default'' ''2013-05-01 12:00:00'' True,
               Log DEBUG (Returning ''acquire''),
               Fork (Some 42),
               Child (Log DEBUG Starting_process),
               Child (Execvp ''no-such-command'' [''no-such-command'']),
               Child (Log ERROR (Exception_raised_on_fork_exec OSError)),
               Child (Log DEBUG (Calling ''release'')),
               Child (Delete ''mutex-default''),
               Child (Log DEBUG (Returning ''release'')),
               Waitpid 42,
               Log DEBUG (Process_exited 42 0),
               Log DEBUG (Calling ''release''),
               Delete ''mutex-default'',
               Log DEBUG (Returning ''release'')],
            slept = 0\<rparr>) \<and>
   release_calls
     [Log DEBUG (Calling ''acquire''),
      Add ''mutex-default'' ''2013-05-01 12:00:00'' True,
      Log DEBUG (Returning ''acquire''),
      Fork (Some 42),
      Child (Log DEBUG Starting_process),
      Child (Execvp ''no-such-command'' [''no-such-command'']),
      Child (Log ERROR (Exception_raised_on_fork_exec OSError)),
      Child (Log DEBUG (Calling ''release'')),
      Child (Delete ''mutex-default''),
      Child (Log DEBUG (Returning ''release'')),
      Waitpid 42,
      Log DEBUG (Process_exited 42 0),
      Log DEBUG (Calling ''release''),
      Delete ''mutex-default'',
      Log DEBUG (Returning ''release'')] = 2 \<and>
   deletes ''mutex-default''
     [Log DEBUG (Calling ''acquire''),
      Add ''mutex-default'' ''2013-05-01 12:00:00'' True,
      Log DEBUG (Returning ''acquire''),
      Fork (Some 42),
      Child (Log DEBUG Starting_process),
      Child (Execvp ''no-such-command'' [''no-such-command'']),
      Child (Log ERROR (Exception_raised_on_fork_exec OSError)),
      Child (Log DEBUG (Calling ''release'')),
      Child (Delete ''mutex-default''),
      Child (Log DEBUG (Returning ''release'')),
      Waitpid 42,
      Log DEBUG (Process_exited 42 0),
      Log DEBUG (Calling ''release''),
      Delete ''mutex-default'',
      Log DEBUG (Returning ''release'')] = 2"
proof -
  have g: "guard env_ex mutex_retry [''no-such-command''] world_free =
     Some (Exit 0,
           \<lparr>store = Map.empty,
            trace =
              [Log DEBUG (Calling ''acquire''),
               Add ''mutex-default'' ''2013-05-01 12:00:00'' True,
               Log DEBUG (Returning ''acquire''),
               Fork (Some 42),
               Child (Log DEBUG Starting_process),
               Child (Execvp ''no-such-command'' [''no-such-command'']),
               Child (Log ERROR (Exception_raised_on_fork_exec OSError)),
               Child (Log DEBUG (Calling ''release'')),
               Child (Delete ''mutex-default''),
               Child (Log DEBUG (Returning ''release'')),
               Waitpid 42,
               Log DEBUG (Process_exited 42 0),
               Log DEBUG (Calling ''release''),
               Delete ''mutex-default'',
               Log DEBUG (Returning ''release'')],
            slept = 0\<rparr>)"
    by (simp add: guard_def acquire_free run_process_def child_def child_branch_def
        guard_exit_def proc_end_of_def wait_status_def world_ops ex_defs)
  have a: "\<exists>w1. acquire env_ex mutex_retry world_free = Some (Return (), w1)"
    by (simp add: acquire_free ex_defs)
  have f: "fork_pid env_ex \<noteq> None" and c: "command env_ex [''no-such-command''] = None"
    by (simp_all add: ex_defs)
  from release_calls_of_guard [OF g] a f c
  have "release_calls (trace (snd (the (guard env_ex mutex_retry [''no-such-command'']
            world_free)))) = release_calls (trace world_free) + 2"
    and "deletes (key mutex_retry) (trace (snd (the (guard env_ex mutex_retry
            [''no-such-command''] world_free)))) =
          deletes (key mutex_retry) (trace world_free) + 2"
    by (simp_all add: g)
  with g show ?thesis
    by (simp add: world_free_def mutex_retry_def release_calls_simps deletes_simps)
qed

subsection \<open>Waiting for the lock\<close>

lemma store_after_Suc_right:
  "store_after e k (Suc n) s = apply_ops (others e (k + n)) (store_after e k n s)"
  by (induction n arbitrary: k s) simp_all

lemma store_after_idle:
  "(\<And>j. k \<le> j \<Longrightarrow> j < k + n \<Longrightarrow> others e j = []) \<Longrightarrow> store_after e k n s = s"
  by (induction n arbitrary: k s) (simp_all add: apply_ops_def)

lemma apply_ops_deleted:
  "s x \<noteq> None \<Longrightarrow> apply_ops ops s x = None \<Longrightarrow> Other_delete x \<in> set ops"
proof (induction ops arbitrary: s)
  case Nil
  then show ?case
    by (simp add: apply_ops_def)
next
  case (Cons a ops)
  show ?case
  proof (cases "apply_op a s x")
    case None
    with Cons.prems(1) have "a = Other_delete x"
      by (cases a) (auto split: if_splits)
    then show ?thesis
      by simp
  next
    case (Some y)
    then have "apply_op a s x \<noteq> None"
      by simp
    moreover from Cons.prems(2) have "apply_ops ops (apply_op a s) x = None"
      by (simp add: apply_ops_def)
    ultimately have "Other_delete x \<in> set ops"
      by (rule Cons.IH)
    then show ?thesis
      by simp
  qed
qed

lemma store_after_deleted:
  "s x \<noteq> None \<Longrightarrow> store_after e k n s x = None \<Longrightarrow>
   \<exists>i. i < n \<and> Other_delete x \<in> set (others e (k + i))"
proof (induction n arbitrary: k s)
  case 0
  then show ?case
    by simp
next
  case (Suc n)
  show ?case
  proof (cases "apply_ops (others e k) s x")
    case None
    with Suc.prems(1) have "Other_delete x \<in> set (others e (k + 0))"
      by (simp add: apply_ops_deleted)
    then show ?thesis
      by blast
  next
    case (Some y)
    then have "apply_ops (others e k) s x \<noteq> None"
      by simp
    moreover from Suc.prems(2)
    have "store_after e (Suc k) n (apply_ops (others e k) s) x = None"
      by simp
    ultimately obtain i where "i < n" and "Other_delete x \<in> set (others e (Suc k + i))"
      using Suc.IH by blast
    then have "Suc i < Suc n" and "Other_delete x \<in> set (others e (k + Suc i))"
      by simp_all
    then show ?thesis
      by blast
  qed
qed

lemma acquire_loop_rounds:
  assumes "retry m"
  shows "store_after e (slept w) n (store w) (key m) = None \<Longrightarrow>
         (\<And>i. i < n \<Longrightarrow> store_after e (slept w) i (store w) (key m) \<noteq> None) \<Longrightarrow>
         acquire_loop e m w =
           Some (Return (),
                 w\<lparr>store := (store_after e (slept w) n (store w))
                             (key m \<mapsto> utcnow e (slept w + n)),
                   slept := slept w + n,
                   trace := trace w @ failed_rounds e m (slept w) n @
                            [Add (key m) (utcnow e (slept w + n)) True]\<rparr>)"
proof (induction n arbitrary: w)
  case 0
  then have "store w (key m) = None"
    by simp
  from acquire_loop_free [OF this, of e] show ?case
    by (simp add: emit_def fun_upd_def)
next
  case (Suc n)
  let ?w' = "sleep e (log DEBUG Retrying (emit (Add (key m) (utcnow e (slept w)) False) w))"
  from Suc.prems(2) [of 0] obtain v where v: "store w (key m) = Some v"
    by auto
  have s: "store ?w' = apply_ops (others e (slept w)) (store w)"
    and k: "slept ?w' = Suc (slept w)"
    by (simp_all add: world_ops)
  have free: "store_after e (slept ?w') n (store ?w') (key m) = None"
    using Suc.prems(1) by (simp add: s k)
  have held: "store_after e (slept ?w') i (store ?w') (key m) \<noteq> None" if "i < n" for i
    using Suc.prems(2) [of "Suc i"] that by (simp add: s k)
  have "acquire_loop e m w = acquire_loop e m ?w'"
    using v assms by (rule acquire_loop_retry)
  also note Suc.IH [OF free held]
  finally show ?case
    by (simp add: world_ops)
qed

lemma acquire_loop_returns_free:
  "acquire_loop e m w = Some rw \<Longrightarrow>
   retry m \<longrightarrow> (\<exists>n. store_after e (slept w) n (store w) (key m) = None)"
proof (induction rule: acquire_loop.raw_induct [rotated 1, consumes 1, case_names step])
  case (step loop e m w rw)
  show ?case
  proof (cases "store w (key m)")
    case None
    then have "store_after e (slept w) 0 (store w) (key m) = None"
      by simp
    then show ?thesis by blast
  next
    case (Some v)
    let ?w' = "sleep e (log DEBUG Retrying (emit (Add (key m) (utcnow e (slept w)) False) w))"
    show ?thesis
    proof
      assume r: "retry m"
      with Some step(2) have "loop e m ?w' = Some rw"
        by (simp add: cli_add_def)
      from step(1) [OF this] r
      obtain n where "store_after e (slept ?w') n (store ?w') (key m) = None"
        by blast
      then have "store_after e (slept w) (Suc n) (store w) (key m) = None"
        by (simp add: world_ops)
      then show "\<exists>n. store_after e (slept w) n (store w) (key m) = None" ..
    qed
  qed
qed

lemma acquire_rounds:
  assumes "retry m"
    and "store_after e (slept w) n (store w) (key m) = None"
    and "\<And>i. i < n \<Longrightarrow> store_after e (slept w) i (store w) (key m) \<noteq> None"
  shows "acquire e m w =
           Some (Return (),
                 w\<lparr>store := (store_after e (slept w) n (store w))
                             (key m \<mapsto> utcnow e (slept w + n)),
                   slept := slept w + n,
                   trace := trace w @ [Log DEBUG (Calling ''acquire'')] @
                            failed_rounds e m (slept w) n @
                            [Add (key m) (utcnow e (slept w + n)) True,
                             Log DEBUG (Returning ''acquire'')]\<rparr>)"
proof -
  let ?w0 = "log DEBUG (Calling ''acquire'') w"
  have s: "store ?w0 = store w" and k: "slept ?w0 = slept w"
    by (simp_all add: world_ops)
  have free: "store_after e (slept ?w0) n (store ?w0) (key m) = None"
    using assms(2) by (simp add: s k)
  have held: "store_after e (slept ?w0) i (store ?w0) (key m) \<noteq> None" if "i < n" for i
    using assms(3) that by (simp add: s k)
  from acquire_loop_rounds [OF assms(1) free held]
  show ?thesis
    by (simp add: acquire_def world_ops)
qed

lemma acquire_returns_free:
  assumes "acquire e m w = Some rw" and "retry m"
  shows "\<exists>n. store_after e (slept w) n (store w) (key m) = None"
proof -
  from assms(1) obtain rw0
    where "acquire_loop e m (log DEBUG (Calling ''acquire'') w) = Some rw0"
    by (auto simp: acquire_def split: option.splits)
  from acquire_loop_returns_free [OF this] assms(2)
  show ?thesis
    by (simp add: world_ops)
qed

lemma first_free:
  assumes "\<exists>n. store_after e k n s x = None"
  shows "\<exists>n. store_after e k n s x = None \<and> (\<forall>i<n. store_after e k i s x \<noteq> None)"
proof -
  let ?n = "LEAST n. store_after e k n s x = None"
  have "store_after e k ?n s x = None"
    using assms by (rule LeastI_ex)
  moreover have "store_after e k i s x \<noteq> None" if "i < ?n" for i
    using not_less_Least [OF that] .
  ultimately show ?thesis
    by blast
qed

lemma acquire_rounds_slept:
  assumes "retry m"
    and "store_after e (slept w) n (store w) (key m) = None"
    and "\<And>i. i < n \<Longrightarrow> store_after e (slept w) i (store w) (key m) \<noteq> None"
  shows "\<exists>w'. acquire e m w = Some (Return (), w') \<and> slept w' = slept w + n \<and>
           store w' (key m) = Some (utcnow e (slept w'))"
  by (simp add: acquire_rounds [OF assms])

lemma acquire_waits_any_number:
  assumes "retry m" and "store w (key m) = Some v"
  shows "\<exists>e' w'. acquire e' m w = Some (Return (), w') \<and> slept w' = slept w + Suc N"
proof -
  let ?e = "(e::env)\<lparr>others := (\<lambda>j. if j = slept w + N then [Other_delete (key m)] else [])\<rparr>"
  have idle: "store_after ?e (slept w) i (store w) = store w" if "i \<le> N" for i
    using that by (intro store_after_idle) auto
  have free: "store_after ?e (slept w) (Suc N) (store w) (key m) = None"
    by (simp add: store_after_Suc_right idle apply_ops_def del: store_after.simps)
  have held: "store_after ?e (slept w) i (store w) (key m) \<noteq> None" if "i < Suc N" for i
    using that assms(2) by (simp add: idle)
  from acquire_rounds_slept [OF assms(1) free held]
  show ?thesis
    by blast
qed


lemma acquire_never_returns:
  assumes "retry m" and "\<And>n. store_after e (slept w) n (store w) (key m) \<noteq> None"
  shows "acquire e m w = None"
proof (cases "acquire e m w")
  case None
  then show ?thesis .
next
  case (Some rw)
  from acquire_returns_free [OF this assms(1)] assms(2) show ?thesis
    by blast
qed

lemma sleeps_failed_rounds:
  "filter is_sleep (failed_rounds e m k n) = replicate n (Sleep 100)"
  by (induction n arbitrary: k) simp_all

text \<open>
  Claim C4, as amended. With retry enabled and the key present, \<open>acquire()\<close>
  returns if and only if one of its attempts finds the key absent, and it never
  returns when every attempt finds the key present. When it returns, it returns
  normally, the key holds the time stamp this caller wrote, and the call consisted
  of \<open>n > 0\<close> refused attempts, each followed by the record \<open>Retrying\<close> and one
  sleep of 100 ms, and a last attempt that succeeded; during one of these sleeps
  another party deleted the key. The number of rounds has no bound: for every
  \<open>N\<close> there is an environment in which the call returns after exactly \<open>N + 1\<close>
  sleeps.
\<close>

theorem acquire_retries_until_key_free:
  assumes "retry m" and "store w (key m) = Some v"
  shows "((\<exists>rw. acquire e m w = Some rw) \<longleftrightarrow>
            (\<exists>n. store_after e (slept w) n (store w) (key m) = None)) \<and>
         ((\<forall>n. store_after e (slept w) n (store w) (key m) \<noteq> None) \<longrightarrow>
            acquire e m w = None) \<and>
         (\<forall>r w'. acquire e m w = Some (r, w') \<longrightarrow>
            r = Return () \<and>
            store w' (key m) = Some (utcnow e (slept w')) \<and>
            (\<exists>n tr. 0 < n \<and> slept w' = slept w + n \<and>
               store_after e (slept w) n (store w) (key m) = None \<and>
               trace w' = trace w @ tr \<and>
               tr = [Log DEBUG (Calling ''acquire'')] @ failed_rounds e m (slept w) n @
                    [Add (key m) (utcnow e (slept w + n)) True,
                     Log DEBUG (Returning ''acquire'')] \<and>
               filter is_sleep tr = replicate n (Sleep 100) \<and>
               (\<exists>i<n. Other_delete (key m) \<in> set (others e (slept w + i))))) \<and>
         (\<forall>N. \<exists>e' w'. acquire e' m w = Some (Return (), w') \<and> slept w' = slept w + Suc N)"
proof (intro conjI allI impI)
  show "(\<exists>rw. acquire e m w = Some rw) \<longleftrightarrow>
          (\<exists>n. store_after e (slept w) n (store w) (key m) = None)"
  proof
    assume "\<exists>rw. acquire e m w = Some rw"
    then obtain rw where "acquire e m w = Some rw" ..
    then show "\<exists>n. store_after e (slept w) n (store w) (key m) = None"
      using assms(1) by (rule acquire_returns_free)
  next
    assume "\<exists>n. store_after e (slept w) n (store w) (key m) = None"
    from first_free [OF this]
    obtain n where "store_after e (slept w) n (store w) (key m) = None"
      and "\<And>i. i < n \<Longrightarrow> store_after e (slept w) i (store w) (key m) \<noteq> None"
      by blast
    from acquire_rounds [OF assms(1) this]
    show "\<exists>rw. acquire e m w = Some rw"
      by blast
  qed
next
  assume held: "\<forall>n. store_after e (slept w) n (store w) (key m) \<noteq> None"
  with assms(1) show "acquire e m w = None"
    by (intro acquire_never_returns) blast+
next
  fix r w'
  assume a: "acquire e m w = Some (r, w')"
  from first_free [OF acquire_returns_free [OF a assms(1)]]
  obtain n where free: "store_after e (slept w) n (store w) (key m) = None"
    and held: "\<And>i. i < n \<Longrightarrow> store_after e (slept w) i (store w) (key m) \<noteq> None"
    by blast
  let ?tr = "[Log DEBUG (Calling ''acquire'')] @ failed_rounds e m (slept w) n @
             [Add (key m) (utcnow e (slept w + n)) True, Log DEBUG (Returning ''acquire'')]"
  from acquire_rounds [OF assms(1) free held] a
  have r: "r = Return ()"
    and w': "w' = w\<lparr>store := (store_after e (slept w) n (store w))
                             (key m \<mapsto> utcnow e (slept w + n)),
                   slept := slept w + n,
                   trace := trace w @ ?tr\<rparr>"
    by simp_all
  have n: "0 < n"
    using free assms(2) by (cases n) simp_all
  have sl: "filter is_sleep ?tr = replicate n (Sleep 100)"
    by (simp add: sleeps_failed_rounds)
  from r show "r = Return ()" .
  from w' show "store w' (key m) = Some (utcnow e (slept w'))"
    by simp
  note n free sl
  moreover from w' have "slept w' = slept w + n" and "trace w' = trace w @ ?tr"
    by simp_all
  moreover have "\<exists>i<n. Other_delete (key m) \<in> set (others e (slept w + i))"
    using store_after_deleted [OF _ free] assms(2) by simp
  ultimately
  show "\<exists>n tr. 0 < n \<and> slept w' = slept w + n \<and>
               store_after e (slept w) n (store w) (key m) = None \<and>
               trace w' = trace w @ tr \<and>
               tr = [Log DEBUG (Calling ''acquire'')] @ failed_rounds e m (slept w) n @
                    [Add (key m) (utcnow e (slept w + n)) True,
                     Log DEBUG (Returning ''acquire'')] \<and>
               filter is_sleep tr = replicate n (Sleep 100) \<and>
               (\<exists>i<n. Other_delete (key m) \<in> set (others e (slept w + i)))"
    by blast
next
  fix N
  from assms show "\<exists>e' w'. acquire e' m w = Some (Return (), w') \<and> slept w' = slept w + Suc N"
    by (rule acquire_waits_any_number)
qed

theorem acquire_retries_until_key_free_witness:
  "retry mutex_retry \<and>
   store world_held (key mutex_retry) = Some ''2013-05-01 11:59:00'' \<and>
   store_after env_ex (slept world_held) 2 (store world_held) (key mutex_retry) = None \<and>
   (\<exists>rw. acquire env_ex mutex_retry world_held = Some rw) \<and>
   acquire env_ex mutex_retry world_held =
     Some (Return (),
           \<lparr>store = [''mutex-default'' \<mapsto> ''2013-05-01 12:00:00''],
            trace =
              [Log DEBUG (Calling ''acquire''),
               Add ''mutex-default'' ''2013-05-01 12:00:00'' False,
               Log DEBUG Retrying,
               Sleep 100,
               Add ''mutex-default'' ''2013-05-01 12:00:00'' False,
               Log DEBUG Retrying,
               Sleep 100,
               Add ''mutex-default'' ''2013-05-01 12:00:00'' True,
               Log DEBUG (Returning ''acquire'')],
            slept = 2\<rparr>)"
proof -
  have r: "retry mutex_retry"
    and h: "store world_held (key mutex_retry) = Some ''2013-05-01 11:59:00''"
    by (simp_all add: ex_defs)
  have f: "store_after env_ex (slept world_held) 2 (store world_held) (key mutex_retry) = None"
    by (simp add: ex_defs numeral_2_eq_2 apply_ops_def)
  from acquire_retries_until_key_free [OF r h, of env_ex] f
  have ex: "\<exists>rw. acquire env_ex mutex_retry world_held = Some rw"
    by blast
  have "acquire env_ex mutex_retry world_held =
     Some (Return (),
           \<lparr>store = [''mutex-default'' \<mapsto> ''2013-05-01 12:00:00''],
            trace =
              [Log DEBUG (Calling ''acquire''),
               Add ''mutex-default'' ''2013-05-01 12:00:00'' False,
               Log DEBUG Retrying,
               Sleep 100,
               Add ''mutex-default'' ''2013-05-01 12:00:00'' False,
               Log DEBUG Retrying,
               Sleep 100,
               Add ''mutex-default'' ''2013-05-01 12:00:00'' True,
               Log DEBUG (Returning ''acquire'')],
            slept = 2\<rparr>)"
    by (simp add: acquire_def acquire_loop.simps world_ops ex_defs apply_ops_def)
  with r h f ex show ?thesis
    by blast
qed

text \<open>
  Claim C4 as stated ("if and only if the key is eventually deleted by another
  party") fails in one direction: in \<open>env_starve\<close> another party deletes the key
  during the first sleep, a third contender adds it again before the sleep is
  over, every attempt of this caller finds the key present, and \<open>acquire()\<close>
  never returns.
\<close>

theorem deleted_key_yet_acquire_blocks:
  "retry mutex_retry \<and>
   store world_held (key mutex_retry) = Some ''2013-05-01 11:59:00'' \<and>
   Other_delete (key mutex_retry) \<in> set (others env_starve 0) \<and>
   acquire env_starve mutex_retry world_held = None"
proof -
  have r: "retry mutex_retry"
    and h: "store world_held (key mutex_retry) = Some ''2013-05-01 11:59:00''"
    and d: "Other_delete (key mutex_retry) \<in> set (others env_starve 0)"
    by (simp_all add: ex_defs env_starve_def)
  have held: "store_after env_starve (slept world_held) n (store world_held) (key mutex_retry)
      \<noteq> None" for n
  proof (cases n)
    case 0
    then show ?thesis
      by (simp add: ex_defs)
  next
    case (Suc n')
    have "store_after env_starve (Suc 0) n' s = s" for s
      by (rule store_after_idle) (simp add: env_starve_def ex_defs)
    with Suc show ?thesis
      by (simp add: ex_defs env_starve_def apply_ops_def)
  qed
  from r held have "acquire env_starve mutex_retry world_held = None"
    by (rule acquire_never_returns)
  with r h d show ?thesis
    by blast
qed

end
